theory Spec2Isabelle
  imports Main "HOL-Library.Word" "HOL-Library.AList" "HOL-Library.Sublist"
begin

section \<open>Data model of \<^verbatim>\<open>cmd/serve.go\<close>\<close>

text \<open>
  \<^verbatim>\<open>document.AnnotsMap\<close> is a Go map from a page to a slice of annotations. It is kept as
  the list of its entries (each page at most once), read with \<open>map_of\<close>; a nil map is
  \<open>None\<close>, an allocated map (\<^verbatim>\<open>make(document.AnnotsMap)\<close>, or a decoded JSON object, even
  an empty one) is \<open>Some\<close> of its entries. The annotation type \<open>'a\<close> is left open.
\<close>

type_synonym page = int

type_synonym 'a AnnotsMap = "(page \<times> 'a list) list"

text \<open>
  \<^verbatim>\<open>document.GhlighDoc\<close>: the two exported fields this file reads and writes, and the rest
  of the struct (path, library handle) as one opaque component.
\<close>

record ('a, 'd) GhlighDoc =
  AnnotsBuffer :: "'a AnnotsMap option"
  HashBuffer :: string
  Handle :: 'd

text \<open>Go's \<^verbatim>\<open>int\<close> on a 64-bit target: addition wraps, comparison is signed.\<close>

type_synonym go_int = "64 word"

record importFileResult =
  File :: string
  Imported :: go_int
  Saved :: bool
  Error :: string

text \<open>
  A slice that reaches the JSON encoder is kept with its nil-ness: \<open>None\<close> is the nil
  slice a \<^verbatim>\<open>var\<close> declaration or a zero struct leaves, \<^verbatim>\<open>append\<close> allocates.
\<close>

type_synonym 'x slice = "'x list option"

fun append_slice :: "'x slice \<Rightarrow> 'x \<Rightarrow> 'x slice" where
  "append_slice None x = Some [x]"
| "append_slice (Some xs) x = Some (xs @ [x])"

fun elems :: "'x slice \<Rightarrow> 'x list" where
  "elems None = []"
| "elems (Some xs) = xs"

record importSummary =
  Files :: "importFileResult slice"
  TotalImported :: go_int

section \<open>Aggregation by hash (\<^verbatim>\<open>serveImportHandler\<close>, lines 108 to 119)\<close>

text \<open>Indexing a Go map at a missing key gives the zero value, here the nil slice.\<close>

definition page_annots :: "'a AnnotsMap \<Rightarrow> page \<Rightarrow> 'a list" where
  "page_annots am p = (case map_of am p of None \<Rightarrow> [] | Some xs \<Rightarrow> xs)"

text \<open>Ranging over a nil map visits nothing.\<close>

fun entries :: "'a AnnotsMap option \<Rightarrow> (page \<times> 'a list) list" where
  "entries None = []"
| "entries (Some es) = es"

text \<open>
  \<^verbatim>\<open>byHash\<close>: an absent key and a nil value read the same (\<^verbatim>\<open>byHash[h] == nil\<close>), both are
  \<open>None\<close>.
\<close>

type_synonym 'a byHash = "string \<Rightarrow> 'a AnnotsMap option"

text \<open>
  Line 117, \<^verbatim>\<open>byHash[h][page] = append(byHash[h][page], annots...)\<close>. Writing into a nil
  map would panic; line 114 has allocated the map of \<open>h\<close> before the loop runs, so the
  first branch is never taken from \<open>aggregate_doc\<close>.
\<close>

definition add_page :: "string \<Rightarrow> page \<times> 'a list \<Rightarrow> 'a byHash \<Rightarrow> 'a byHash" where
  "add_page h e byHash =
     (case byHash h of
        None \<Rightarrow> byHash
      | Some am \<Rightarrow> byHash (h \<mapsto> AList.update (fst e) (page_annots am (fst e) @ snd e) am))"

text \<open>The guard of line 110.\<close>

definition skipped :: "('a, 'd) GhlighDoc \<Rightarrow> bool" where
  "skipped d = (HashBuffer d = [] \<or> AnnotsBuffer d = None)"

text \<open>The body of the loop over \<^verbatim>\<open>importedDocs\<close>, lines 110 to 118.\<close>

definition aggregate_doc :: "('a, 'd) GhlighDoc \<Rightarrow> 'a byHash \<Rightarrow> 'a byHash" where
  "aggregate_doc d byHash =
     (if skipped d then byHash
      else
        let byHash1 =
              (if byHash (HashBuffer d) = None then byHash (HashBuffer d \<mapsto> []) else byHash)
        in fold (add_page (HashBuffer d)) (entries (AnnotsBuffer d)) byHash1)"

definition aggregate :: "('a, 'd) GhlighDoc list \<Rightarrow> 'a byHash" where
  "aggregate importedDocs = fold aggregate_doc importedDocs (\<lambda>h. None)"

text \<open>Reading \<^verbatim>\<open>byHash[h][p]\<close>: a missing hash gives the nil map, a missing page the nil slice.\<close>

definition annots_at :: "'a byHash \<Rightarrow> string \<Rightarrow> page \<Rightarrow> 'a list" where
  "annots_at byHash h p = (case byHash h of None \<Rightarrow> [] | Some am \<Rightarrow> page_annots am p)"

text \<open>What the inner loop does to the map of one hash, used to reason about \<open>add_page\<close>.\<close>

definition merge_pages :: "'a AnnotsMap \<Rightarrow> (page \<times> 'a list) list \<Rightarrow> 'a AnnotsMap" where
  "merge_pages am es =
     fold (\<lambda>e acc. AList.update (fst e) (page_annots acc (fst e) @ snd e) acc) es am"

section \<open>The collaborators\<close>

text \<open>
  The \<^verbatim>\<open>document\<close> package, \<^verbatim>\<open>filepath.WalkDir\<close>, \<^verbatim>\<open>filepath.Abs\<close> and \<^verbatim>\<open>json.Unmarshal\<close>
  are not part of this file; they are parameters. Each call of the \<^verbatim>\<open>document\<close> package
  may read and change the world \<open>'w\<close> (the files on disk, the state of the library) and
  is threaded through it. An \<^verbatim>\<open>error\<close> result is the text \<^verbatim>\<open>err.Error()\<close> gives.
\<close>

text \<open>
  One call of the walk function by \<^verbatim>\<open>filepath.WalkDir\<close>: the path, the entry's name and
  kind, and the error passed in.
\<close>

record visit =
  v_path :: string
  v_name :: string
  v_isDir :: bool
  v_err :: "string option"

record ('w, 'a, 'd) env =
  Open :: "string \<Rightarrow> 'w \<Rightarrow> (string + ('a, 'd) GhlighDoc) \<times> 'w"
  GetAnnotsBuffer :: "('a, 'd) GhlighDoc \<Rightarrow> 'w \<Rightarrow> 'a AnnotsMap option \<times> 'w"
  HashDoc :: "('a, 'd) GhlighDoc \<Rightarrow> 'w \<Rightarrow> string \<times> 'w"
  Import :: "('a, 'd) GhlighDoc \<Rightarrow> 'a AnnotsMap \<Rightarrow> 'w \<Rightarrow> (go_int \<times> string option) \<times> 'w"
  Save :: "('a, 'd) GhlighDoc \<Rightarrow> 'w \<Rightarrow> (bool \<times> string option) \<times> 'w"
  Close :: "('a, 'd) GhlighDoc \<Rightarrow> 'w \<Rightarrow> 'w"
  WalkDir :: "string \<Rightarrow> 'w \<Rightarrow> visit list"
  Abs :: "string \<Rightarrow> 'w \<Rightarrow> string + string"
  Unmarshal :: "string \<Rightarrow> string + ('a, 'd) GhlighDoc list"

text \<open>
  The log of the collaborator calls a handler makes, in order, each with the handle it
  was made on and what it returned.
\<close>

datatype ('a, 'd) call =
    Call_WalkDir string
  | Call_Open string "string + 'd"
  | Call_GetAnnotsBuffer 'd
  | Call_HashDoc 'd string
  | Call_Import 'd "'a AnnotsMap" go_int "string option"
  | Call_Save 'd bool "string option"
  | Call_Close 'd

section \<open>\<^verbatim>\<open>scanPDFs\<close>\<close>

text \<open>
  \<^verbatim>\<open>filepath.Ext\<close>: the suffix from the last dot of the last path element, empty when
  there is none. The scan runs from the end of the name; \<open>seen\<close> is what lies behind.
\<close>

fun ext_scan :: "string \<Rightarrow> string \<Rightarrow> string" where
  "ext_scan [] seen = []"
| "ext_scan (c # cs) seen =
     (if c = CHR ''/'' then []
      else if c = CHR ''.'' then c # seen
      else ext_scan cs (c # seen))"

definition Ext :: "string \<Rightarrow> string" where
  "Ext name = ext_scan (rev name) []"

text \<open>\<^verbatim>\<open>walkFn\<close>, lines 32 to 48; \<open>Inl\<close> is the error it returns.\<close>

definition walkFn ::
  "('w, 'a, 'd) env \<Rightarrow> 'w \<Rightarrow> string list \<Rightarrow> visit \<Rightarrow> string + string list" where
  "walkFn E w pdfs v =
     (case v_err v of
        Some err \<Rightarrow> Inl err
      | None \<Rightarrow>
          if v_isDir v then Inr pdfs
          else if Ext (v_name v) \<noteq> ''.pdf'' then Inr pdfs
          else (case Abs E (v_path v) w of
                  Inl err \<Rightarrow> Inl err
                | Inr p \<Rightarrow> Inr (pdfs @ [p])))"

text \<open>
  \<^verbatim>\<open>filepath.WalkDir\<close> calls the walk function on each visit in turn and stops at the first
  error it returns. \<^verbatim>\<open>pdfs\<close> is only ranged over by the callers, so its nil-ness is not
  kept.
\<close>

fun walk :: "('w, 'a, 'd) env \<Rightarrow> 'w \<Rightarrow> string list \<Rightarrow> visit list \<Rightarrow> string + string list" where
  "walk E w pdfs [] = Inr pdfs"
| "walk E w pdfs (v # vs) =
     (case walkFn E w pdfs v of
        Inl err \<Rightarrow> Inl err
      | Inr pdfs' \<Rightarrow> walk E w pdfs' vs)"

definition scanPDFs :: "('w, 'a, 'd) env \<Rightarrow> string \<Rightarrow> 'w \<Rightarrow> string + string list" where
  "scanPDFs E root w = walk E w [] (WalkDir E root w)"

section \<open>Requests and responses\<close>

text \<open>The request: its method and what \<^verbatim>\<open>io.ReadAll(r.Body)\<close> returns.\<close>

record request =
  Method :: string
  ReadAll :: "string + string"

text \<open>
  \<^verbatim>\<open>encoding/json\<close> writes a nil slice as \<^verbatim>\<open>null\<close> and an allocated one as an array.
\<close>

datatype 'x encoded = Enc_null | Enc_array "'x list"

fun encode_slice :: "'x slice \<Rightarrow> 'x encoded" where
  "encode_slice None = Enc_null"
| "encode_slice (Some xs) = Enc_array xs"

datatype ('a, 'd) body =
    Text string
  | Export_json "('a, 'd) GhlighDoc encoded"
  | Import_json "importFileResult encoded" go_int

record ('a, 'd) response =
  Status :: nat
  Body :: "('a, 'd) body"

text \<open>\<^verbatim>\<open>http.Error\<close> writes the status and the message followed by a newline.\<close>

definition http_Error :: "string \<Rightarrow> nat \<Rightarrow> ('a, 'd) response" where
  "http_Error msg code = \<lparr>Status = code, Body = Text (msg @ [CHR 0x0A])\<rparr>"

text \<open>What a handler leaves behind: the response, the world, and the calls it made.\<close>

record ('w, 'a, 'd) outcome =
  Response :: "('a, 'd) response"
  World :: 'w
  Calls :: "('a, 'd) call list"

section \<open>\<^verbatim>\<open>serveExportHandler\<close>\<close>

record ('w, 'a, 'd) export_state =
  exportedDocs :: "('a, 'd) GhlighDoc slice"
  xworld :: 'w
  xcalls :: "('a, 'd) call list"

text \<open>The body of the loop, lines 76 to 84.\<close>

definition export_file ::
  "('w, 'a, 'd) env \<Rightarrow> string \<Rightarrow> ('w, 'a, 'd) export_state \<Rightarrow> ('w, 'a, 'd) export_state" where
  "export_file E path st =
     (case Open E path (xworld st) of
        (Inl err, w1) \<Rightarrow>
          st\<lparr>xworld := w1, xcalls := xcalls st @ [Call_Open path (Inl err)]\<rparr>
      | (Inr doc, w1) \<Rightarrow>
          (case GetAnnotsBuffer E doc w1 of (ab, w2) \<Rightarrow>
             let doc1 = doc\<lparr>AnnotsBuffer := ab\<rparr> in
             (case HashDoc E doc1 w2 of (h, w3) \<Rightarrow>
                let doc2 = doc1\<lparr>HashBuffer := h\<rparr> in
                st\<lparr>exportedDocs := append_slice (exportedDocs st) doc2,
                   xworld := Close E doc2 w3,
                   xcalls := xcalls st @
                     [Call_Open path (Inr (Handle doc)), Call_GetAnnotsBuffer (Handle doc),
                      Call_HashDoc (Handle doc1) h, Call_Close (Handle doc2)]\<rparr>)))"

text \<open>Lines 74 to 85: \<^verbatim>\<open>var exportedDocs\<close> starts as the nil slice.\<close>

definition export_loop ::
  "('w, 'a, 'd) env \<Rightarrow> string list \<Rightarrow> 'w \<Rightarrow> ('w, 'a, 'd) export_state" where
  "export_loop E pdfs w =
     fold (export_file E) pdfs
       \<lparr>exportedDocs = None, xworld = w, xcalls = [Call_WalkDir ''.'']\<rparr>"

definition serveExportHandler ::
  "('w, 'a, 'd) env \<Rightarrow> request \<Rightarrow> 'w \<Rightarrow> ('w, 'a, 'd) outcome" where
  "serveExportHandler E r w =
     (if Method r \<noteq> ''POST'' then
        \<lparr>Response = http_Error ''method not allowed'' 405, World = w, Calls = []\<rparr>
      else
        (case scanPDFs E ''.'' w of
           Inl err \<Rightarrow>
             \<lparr>Response = http_Error err 500, World = w, Calls = [Call_WalkDir ''.'']\<rparr>
         | Inr pdfs \<Rightarrow>
             let st = export_loop E pdfs w
             in \<lparr>Response = \<lparr>Status = 200, Body = Export_json (encode_slice (exportedDocs st))\<rparr>,
                 World = xworld st, Calls = xcalls st\<rparr>))"

section \<open>\<^verbatim>\<open>serveImportHandler\<close>\<close>

record ('w, 'a, 'd) import_state =
  summary :: importSummary
  world :: 'w
  calls :: "('a, 'd) call list"

text \<open>
  The body of the loop over \<^verbatim>\<open>pdfs\<close>, lines 129 to 164. Each \<^verbatim>\<open>continue\<close> and the end of
  the body is one branch.
\<close>

definition import_file ::
  "('w, 'a, 'd) env \<Rightarrow> 'a byHash \<Rightarrow> string \<Rightarrow> ('w, 'a, 'd) import_state
     \<Rightarrow> ('w, 'a, 'd) import_state" where
  "import_file E byHash path st =
     (let res = \<lparr>File = path, Imported = 0, Saved = False, Error = []\<rparr> in
      case Open E path (world st) of
        (Inl err, w1) \<Rightarrow>
          st\<lparr>summary := (summary st)\<lparr>Files := append_slice (Files (summary st)) (res\<lparr>Error := err\<rparr>)\<rparr>,
             world := w1,
             calls := calls st @ [Call_Open path (Inl err)]\<rparr>
      | (Inr doc, w1) \<Rightarrow>
          (case HashDoc E doc w1 of (h, w2) \<Rightarrow>
             (case byHash h of
                None \<Rightarrow>
                  st\<lparr>world := Close E doc w2,
                     calls := calls st @
                       [Call_Open path (Inr (Handle doc)), Call_HashDoc (Handle doc) h,
                        Call_Close (Handle doc)]\<rparr>
              | Some am \<Rightarrow>
                  (case Import E doc am w2 of ((imported, err), w3) \<Rightarrow>
                     let res1 = res\<lparr>Imported := imported\<rparr>;
                         cs = [Call_Open path (Inr (Handle doc)), Call_HashDoc (Handle doc) h,
                               Call_Import (Handle doc) am imported err]
                     in
                     (case err of
                        Some msg \<Rightarrow>
                          st\<lparr>summary := (summary st)
                               \<lparr>Files := append_slice (Files (summary st)) (res1\<lparr>Error := msg\<rparr>)\<rparr>,
                             world := Close E doc w3,
                             calls := calls st @ cs @ [Call_Close (Handle doc)]\<rparr>
                      | None \<Rightarrow>
                          if 0 <s imported then
                            (case Save E doc w3 of ((saved, serr), w4) \<Rightarrow>
                               let res2 = res1\<lparr>Saved := saved\<rparr>;
                                   res3 = (case serr of None \<Rightarrow> res2
                                           | Some msg \<Rightarrow> res2\<lparr>Error := msg\<rparr>)
                               in
                               st\<lparr>summary :=
                                    \<lparr>Files = append_slice (Files (summary st)) res3,
                                     TotalImported = TotalImported (summary st) + imported\<rparr>,
                                  world := Close E doc w4,
                                  calls := calls st @ cs @
                                    [Call_Save (Handle doc) saved serr, Call_Close (Handle doc)]\<rparr>)
                          else
                            st\<lparr>summary :=
                                 \<lparr>Files = append_slice (Files (summary st)) res1,
                                  TotalImported = TotalImported (summary st) + imported\<rparr>,
                               world := Close E doc w3,
                               calls := calls st @ cs @ [Call_Close (Handle doc)]\<rparr>)))))"

text \<open>Lines 127 to 165: \<^verbatim>\<open>importSummary{}\<close> has a nil \<^verbatim>\<open>Files\<close> and a zero total.\<close>

definition import_loop ::
  "('w, 'a, 'd) env \<Rightarrow> 'a byHash \<Rightarrow> string list \<Rightarrow> 'w \<Rightarrow> ('w, 'a, 'd) import_state" where
  "import_loop E byHash pdfs w =
     fold (import_file E byHash) pdfs
       \<lparr>summary = \<lparr>Files = None, TotalImported = 0\<rparr>, world = w, calls = [Call_WalkDir ''.'']\<rparr>"

definition serveImportHandler ::
  "('w, 'a, 'd) env \<Rightarrow> request \<Rightarrow> 'w \<Rightarrow> ('w, 'a, 'd) outcome" where
  "serveImportHandler E r w =
     (if Method r \<noteq> ''POST'' then
        \<lparr>Response = http_Error ''method not allowed'' 405, World = w, Calls = []\<rparr>
      else
        (case ReadAll r of
           Inl err \<Rightarrow> \<lparr>Response = http_Error err 400, World = w, Calls = []\<rparr>
         | Inr body \<Rightarrow>
             (case Unmarshal E body of
                Inl err \<Rightarrow>
                  \<lparr>Response = http_Error (''invalid json: '' @ err) 400, World = w, Calls = []\<rparr>
              | Inr importedDocs \<Rightarrow>
                  let byHash = aggregate importedDocs in
                  (case scanPDFs E ''.'' w of
                     Inl err \<Rightarrow>
                       \<lparr>Response = http_Error err 500, World = w, Calls = [Call_WalkDir ''.'']\<rparr>
                   | Inr pdfs \<Rightarrow>
                       let st = import_loop E byHash pdfs w
                       in \<lparr>Response =
                             \<lparr>Status = 200,
                              Body = Import_json (encode_slice (Files (summary st)))
                                       (TotalImported (summary st))\<rparr>,
                           World = world st, Calls = calls st\<rparr>))))"

section \<open>Reading the log\<close>


text \<open>
  The discipline on handles: \<^verbatim>\<open>Open\<close> is called only while no document is open, every
  other call is on the document that is open, \<^verbatim>\<open>Close\<close> leaves none open, and none is
  open at the end. The first argument is the handle that is open, if any.
\<close>

fun handles_closed :: "'d option \<Rightarrow> ('a, 'd) call list \<Rightarrow> bool" where
  "handles_closed cur [] = (cur = None)"
| "handles_closed cur (Call_WalkDir root # cs) = handles_closed cur cs"
| "handles_closed cur (Call_Open p (Inl err) # cs) = (cur = None \<and> handles_closed None cs)"
| "handles_closed cur (Call_Open p (Inr d) # cs) = (cur = None \<and> handles_closed (Some d) cs)"
| "handles_closed cur (Call_GetAnnotsBuffer d # cs) = (cur = Some d \<and> handles_closed cur cs)"
| "handles_closed cur (Call_HashDoc d h # cs) = (cur = Some d \<and> handles_closed cur cs)"
| "handles_closed cur (Call_Import d am n err # cs) = (cur = Some d \<and> handles_closed cur cs)"
| "handles_closed cur (Call_Save d saved err # cs) = (cur = Some d \<and> handles_closed cur cs)"
| "handles_closed cur (Call_Close d # cs) = (cur = Some d \<and> handles_closed None cs)"


text \<open>The text of a plain response.\<close>

fun body_text :: "('a, 'd) body \<Rightarrow> string" where
  "body_text (Text s) = s"
| "body_text (Export_json docs) = []"
| "body_text (Import_json files n) = []"

section \<open>A small world to run the handlers in\<close>

text \<open>
  Every path but \<^verbatim>\<open>/bad.pdf\<close> opens; every document hashes to \<^verbatim>\<open>abc\<close> but \<^verbatim>\<open>/other.pdf\<close>;
  the merge of \<^verbatim>\<open>/broken.pdf\<close> applies one record and fails; the annotations a document
  holds, what \<^verbatim>\<open>Import\<close> returns on the other documents, what \<^verbatim>\<open>Save\<close> returns and what
  the walk visits are chosen by the caller. Any body but \<^verbatim>\<open>not json\<close> decodes to one document with
  hash \<^verbatim>\<open>abc\<close> and one highlight on page 1.
\<close>

definition example_env ::
  "string AnnotsMap option \<Rightarrow> go_int \<times> string option \<Rightarrow> bool \<times> string option \<Rightarrow> visit list
     \<Rightarrow> (unit, string, string) env" where
  "example_env ab mr sr vs =
     \<lparr>Open = (\<lambda>p w. if p = ''/bad.pdf'' then (Inl ''open failed'', w)
                     else (Inr \<lparr>AnnotsBuffer = None, HashBuffer = [], Handle = p\<rparr>, w)),
      GetAnnotsBuffer = (\<lambda>d w. (ab, w)),
      HashDoc = (\<lambda>d w. (if Handle d = ''/other.pdf'' then ''xyz'' else ''abc'', w)),
      Import = (\<lambda>d am w. (if Handle d = ''/broken.pdf'' then (1, Some ''merge failed'') else mr, w)),
      Save = (\<lambda>d w. (sr, w)),
      Close = (\<lambda>d w. w),
      WalkDir = (\<lambda>root w. vs),
      Abs = (\<lambda>p w. Inr (CHR ''/'' # p)),
      Unmarshal = (\<lambda>body. if body = ''not json'' then Inl ''invalid character''
                           else Inr [\<lparr>AnnotsBuffer = Some [(1, [''h1''])], HashBuffer = ''abc'',
                                      Handle = []\<rparr>])\<rparr>"

definition dir_visit :: "string \<Rightarrow> visit" where
  "dir_visit p = \<lparr>v_path = p, v_name = p, v_isDir = True, v_err = None\<rparr>"

definition file_visit :: "string \<Rightarrow> visit" where
  "file_visit p = \<lparr>v_path = p, v_name = p, v_isDir = False, v_err = None\<rparr>"

definition post :: "string \<Rightarrow> request" where
  "post body = \<lparr>Method = ''POST'', ReadAll = Inr body\<rparr>"

definition example_byHash :: "string byHash" where
  "example_byHash =
     aggregate [\<lparr>AnnotsBuffer = Some [(1, [''h1''])], HashBuffer = ''abc'', Handle = ''x''\<rparr>]"

definition start :: "(unit, string, string) import_state" where
  "start = \<lparr>summary = \<lparr>Files = None, TotalImported = 0\<rparr>, world = (), calls = []\<rparr>"

definition xstart :: "(unit, string, string) export_state" where
  "xstart = \<lparr>exportedDocs = None, xworld = (), xcalls = []\<rparr>"

definition rstart :: "(unit \<times> (string, string) call list, string, string) import_state" where
  "rstart = \<lparr>summary = \<lparr>Files = None, TotalImported = 0\<rparr>, world = ((), []), calls = []\<rparr>"

section \<open>A world that records what is done to it\<close>

text \<open>
  Any collaborators can be run in a world that keeps, behind the world they work on, a
  record of the calls they received: each call of the \<^verbatim>\<open>document\<close> package does to the
  first component what it does under \<open>E\<close>, and the collaborator itself writes down the
  call with what it returned. The record is part of the world, not of the handler: a
  call the handler does not make, or whose resulting world it drops, is not in it.
\<close>

definition recording :: "('w, 'a, 'd) env \<Rightarrow> ('w \<times> ('a, 'd) call list, 'a, 'd) env" where
  "recording E =
     \<lparr>Open = (\<lambda>p (w, tr).
         case Open E p w of
           (Inl err, w') \<Rightarrow> (Inl err, (w', tr @ [Call_Open p (Inl err)]))
         | (Inr doc, w') \<Rightarrow> (Inr doc, (w', tr @ [Call_Open p (Inr (Handle doc))]))),
      GetAnnotsBuffer = (\<lambda>d (w, tr).
         case GetAnnotsBuffer E d w of
           (ab, w') \<Rightarrow> (ab, (w', tr @ [Call_GetAnnotsBuffer (Handle d)]))),
      HashDoc = (\<lambda>d (w, tr).
         case HashDoc E d w of (h, w') \<Rightarrow> (h, (w', tr @ [Call_HashDoc (Handle d) h]))),
      Import = (\<lambda>d am (w, tr).
         case Import E d am w of
           ((n, err), w') \<Rightarrow> ((n, err), (w', tr @ [Call_Import (Handle d) am n err]))),
      Save = (\<lambda>d (w, tr).
         case Save E d w of
           ((saved, err), w') \<Rightarrow> ((saved, err), (w', tr @ [Call_Save (Handle d) saved err]))),
      Close = (\<lambda>d (w, tr). (Close E d w, tr @ [Call_Close (Handle d)])),
      WalkDir = (\<lambda>root (w, tr). WalkDir E root w),
      Abs = (\<lambda>p (w, tr). Abs E p w),
      Unmarshal = Unmarshal E\<rparr>"

text \<open>
  A state of the import loop in the recording world mirrors a state in the plain one:
  same summary, same plain world, and the handler's own log is the record of the world
  behind the call of the walk.
\<close>

definition mirrors ::
  "('w \<times> ('a, 'd) call list, 'a, 'd) import_state \<Rightarrow> ('w, 'a, 'd) import_state \<Rightarrow> bool" where
  "mirrors rs st =
     (summary rs = summary st \<and> fst (world rs) = world st \<and> calls rs = calls st \<and>
      calls rs = Call_WalkDir ''.'' # snd (world rs))"


section \<open>The bookkeeping invariant of the import loop\<close>


section \<open>Lemmas on slices and logs\<close>

lemma elems_append_slice: "elems (append_slice s x) = elems s @ [x]"
  by (cases s) simp_all


lemma handles_closed_append:
  "handles_closed cur xs \<Longrightarrow> handles_closed cur (xs @ ys) = handles_closed None ys"
  by (induction cur xs rule: handles_closed.induct) auto


lemmas run_defs =
  example_env_def dir_visit_def file_visit_def post_def example_byHash_def start_def xstart_def
  rstart_def recording_def
  serveImportHandler_def serveExportHandler_def import_loop_def export_loop_def
  import_file_def export_file_def scanPDFs_def walkFn_def Ext_def http_Error_def
  aggregate_def aggregate_doc_def skipped_def add_page_def page_annots_def annots_at_def Let_def
  word_sless_alt

section \<open>Aggregation\<close>

lemma fold_add_page:
  "byHash h = Some am \<Longrightarrow> fold (add_page h) es byHash = byHash (h \<mapsto> merge_pages am es)"
proof (induction es arbitrary: byHash am)
  case Nil
  then show ?case by (auto simp: merge_pages_def)
next
  case (Cons e es)
  let ?am = "AList.update (fst e) (page_annots am (fst e) @ snd e) am"
  have step: "add_page h e byHash = byHash (h \<mapsto> ?am)"
    using Cons.prems by (simp add: add_page_def)
  have "fold (add_page h) es (byHash (h \<mapsto> ?am)) =
      (byHash (h \<mapsto> ?am)) (h \<mapsto> merge_pages ?am es)"
    by (rule Cons.IH) simp
  moreover have "merge_pages am (e # es) = merge_pages ?am es"
    by (simp add: merge_pages_def)
  ultimately show ?case
    by (simp add: step)
qed

lemma page_annots_update:
  "page_annots (AList.update k v am) p = (if p = k then v else page_annots am p)"
  by (simp add: page_annots_def update_conv')

text \<open>With every page at most once among the entries, each page receives its own slice.\<close>

lemma page_annots_merge_pages:
  "distinct (map fst es) \<Longrightarrow>
   page_annots (merge_pages am es) p = page_annots am p @ page_annots es p"
proof (induction es arbitrary: am)
  case Nil
  then show ?case by (simp add: merge_pages_def page_annots_def)
next
  case (Cons e es)
  obtain k v where e: "e = (k, v)" by (cases e)
  have d: "distinct (map fst es)" and k: "k \<notin> fst ` set es"
    using Cons.prems e by auto
  have m: "merge_pages am (e # es) = merge_pages (AList.update k (page_annots am k @ v) am) es"
    by (simp add: merge_pages_def e)
  have ih: "page_annots (merge_pages am (e # es)) p =
      page_annots (AList.update k (page_annots am k @ v) am) p @ page_annots es p"
    unfolding m by (rule Cons.IH [OF d])
  show ?case
  proof (cases "p = k")
    case True
    then have "map_of es p = None" using k by (simp add: map_of_eq_None_iff)
    then have "page_annots es p = []" and "page_annots (e # es) p = v"
      using True by (simp_all add: page_annots_def e)
    then show ?thesis
      using True ih by (simp add: page_annots_update)
  next
    case False
    then have "page_annots (e # es) p = page_annots es p"
      by (simp add: page_annots_def e)
    then show ?thesis
      using False ih by (simp add: page_annots_update)
  qed
qed

lemma aggregate_doc_skipped: "skipped d \<Longrightarrow> aggregate_doc d byHash = byHash"
  by (simp add: aggregate_doc_def)

lemma aggregate_doc_kept:
  "HashBuffer d \<noteq> [] \<Longrightarrow> AnnotsBuffer d = Some es \<Longrightarrow>
   aggregate_doc d byHash =
     byHash (HashBuffer d \<mapsto>
       merge_pages (case byHash (HashBuffer d) of None \<Rightarrow> [] | Some m \<Rightarrow> m) es)"
  by (cases "byHash (HashBuffer d)") (simp_all add: aggregate_doc_def skipped_def fold_add_page)

lemma aggregate_doc_entry: "\<not> skipped d \<Longrightarrow> aggregate_doc d byHash (HashBuffer d) \<noteq> None"
  by (cases "AnnotsBuffer d") (auto simp: skipped_def aggregate_doc_kept)

lemma annots_at_aggregate_doc:
  "HashBuffer d \<noteq> [] \<Longrightarrow> AnnotsBuffer d = Some es \<Longrightarrow> distinct (map fst es) \<Longrightarrow>
   annots_at (aggregate_doc d byHash) (HashBuffer d) p =
     annots_at byHash (HashBuffer d) p @ page_annots es p"
  by (cases "byHash (HashBuffer d)")
     (simp_all add: aggregate_doc_kept annots_at_def page_annots_merge_pages,
      simp add: page_annots_def)

lemma aggregate_filter:
  "fold aggregate_doc ds byHash = fold aggregate_doc (filter (\<lambda>d. \<not> skipped d) ds) byHash"
  by (induction ds arbitrary: byHash) (simp_all add: aggregate_doc_skipped)

text \<open>
  Claim C3, as the specification words it, fails: a summary with a hash and an annotation
  mapping that is present but empty (the JSON object \<^verbatim>\<open>{}\<close>) passes the guard of line 110,
  which tests the mapping against nil only, and line 114 allocates an entry for its hash.
\<close>

theorem empty_mapping_not_skipped_counterexample:
  "aggregate [\<lparr>AnnotsBuffer = Some [], HashBuffer = ''abc'', Handle = ()\<rparr>
                :: (string, unit) GhlighDoc] ''abc'' = Some []"
  by (simp add: run_defs)

text \<open>
  Claim C3, amended: aggregation skips every summary whose hash is empty or whose
  annotation mapping is absent (nil). Such a summary contributes nothing: the result is
  that of the batch without the skipped summaries, and a batch of skipped summaries only
  gives the empty mapping whatever hashes it holds. A summary with a hash and a mapping
  that is present, even empty, is not skipped: its hash gets an entry.
\<close>

theorem aggregate_skips:
  "aggregate ds = aggregate (filter (\<lambda>d. \<not> skipped d) ds) \<and>
   ((\<forall>d \<in> set ds. HashBuffer d = [] \<or> AnnotsBuffer d = None) \<longrightarrow> aggregate ds = (\<lambda>h. None)) \<and>
   (HashBuffer d \<noteq> [] \<longrightarrow> AnnotsBuffer d \<noteq> None \<longrightarrow>
      aggregate_doc d byHash (HashBuffer d) \<noteq> None)"
proof -
  have a: "aggregate ds = aggregate (filter (\<lambda>d. \<not> skipped d) ds)"
    unfolding aggregate_def by (rule aggregate_filter)
  have "filter (\<lambda>d. \<not> skipped d) ds = []"
    if "\<forall>d \<in> set ds. HashBuffer d = [] \<or> AnnotsBuffer d = None"
    using that by (simp add: filter_empty_conv skipped_def)
  then have "aggregate ds = (\<lambda>h. None)"
    if "\<forall>d \<in> set ds. HashBuffer d = [] \<or> AnnotsBuffer d = None"
    using that a by (simp add: aggregate_def)
  moreover have "aggregate_doc d byHash (HashBuffer d) \<noteq> None"
    if "HashBuffer d \<noteq> []" "AnnotsBuffer d \<noteq> None"
    using that by (intro aggregate_doc_entry) (simp add: skipped_def)
  ultimately show ?thesis
    using a by blast
qed

theorem aggregate_skips_witness:
  "aggregate [\<lparr>AnnotsBuffer = Some [(1, [''h1''])], HashBuffer = [], Handle = ()\<rparr>,
              \<lparr>AnnotsBuffer = None, HashBuffer = ''abc'', Handle = ()\<rparr>] = (\<lambda>h. None) \<and>
   aggregate_doc \<lparr>AnnotsBuffer = Some [(1, [''h1''])], HashBuffer = ''abc'', Handle = ()\<rparr>
     (\<lambda>h. None) ''abc'' \<noteq> None"
  using aggregate_skips
    [of "[\<lparr>AnnotsBuffer = Some [(1, [''h1''])], HashBuffer = [], Handle = ()\<rparr>,
          \<lparr>AnnotsBuffer = None, HashBuffer = ''abc'', Handle = ()\<rparr>]"
        "\<lparr>AnnotsBuffer = Some [(1, [''h1''])], HashBuffer = ''abc'', Handle = ()\<rparr>"
        "\<lambda>h. None", THEN conjunct2]
  by simp

text \<open>
  Claim C5, as the specification words it, fails when the shared hash is the empty
  string: both summaries are skipped by the guard of line 110 and nothing is stored.
\<close>

theorem empty_hash_not_concatenated_counterexample:
  "annots_at
     (aggregate [\<lparr>AnnotsBuffer = Some [(1, [''h1''])], HashBuffer = [], Handle = ()\<rparr>,
                 \<lparr>AnnotsBuffer = Some [(1, [''h2''])], HashBuffer = [], Handle = ()\<rparr>]) [] 1 = []"
  by (simp add: run_defs)

text \<open>
  Claim C5, amended: for two summaries \<open>a\<close> and \<open>b\<close> that share a hash \<open>h\<close> which is not
  empty, both with an annotation mapping (a Go map: each page at most once), aggregating
  \<open>[a, b]\<close> gives for \<open>h\<close> and every page \<open>p\<close> the sequence of \<open>a\<close> for \<open>p\<close> followed by that
  of \<open>b\<close>, nothing dropped and nothing reordered; its length is the sum of the two
  lengths.
\<close>

theorem aggregate_concat:
  assumes "HashBuffer a = h" and "HashBuffer b = h" and "h \<noteq> []"
    and "AnnotsBuffer a = Some ea" and "AnnotsBuffer b = Some eb"
    and "distinct (map fst ea)" and "distinct (map fst eb)"
  shows "annots_at (aggregate [a, b]) h p = page_annots ea p @ page_annots eb p \<and>
         length (annots_at (aggregate [a, b]) h p) =
           length (page_annots ea p) + length (page_annots eb p)"
proof -
  have "annots_at (aggregate_doc a (\<lambda>h. None)) h p = page_annots ea p"
    using assms annots_at_aggregate_doc [of a ea "\<lambda>h. None" p] by (simp add: annots_at_def)
  moreover have "annots_at (aggregate_doc b (aggregate_doc a (\<lambda>h. None))) h p =
      annots_at (aggregate_doc a (\<lambda>h. None)) h p @ page_annots eb p"
    using assms annots_at_aggregate_doc [of b eb "aggregate_doc a (\<lambda>h. None)" p] by simp
  ultimately show ?thesis by (simp add: aggregate_def)
qed

theorem aggregate_concat_witness:
  "annots_at
     (aggregate [\<lparr>AnnotsBuffer = Some [(1, [''h1''])], HashBuffer = ''abc'', Handle = ()\<rparr>,
                 \<lparr>AnnotsBuffer = Some [(1, [''h2''])], HashBuffer = ''abc'', Handle = ()\<rparr>])
     ''abc'' 1 = [''h1'', ''h2'']"
  using aggregate_concat
    [of "\<lparr>AnnotsBuffer = Some [(1, [''h1''])], HashBuffer = ''abc'', Handle = ()\<rparr>" "''abc''"
        "\<lparr>AnnotsBuffer = Some [(1, [''h2''])], HashBuffer = ''abc'', Handle = ()\<rparr>"
        "[(1, [''h1''])]" "[(1, [''h2''])]" 1]
  by (simp add: page_annots_def)

section \<open>The import loop\<close>





text \<open>
  The run in the recording world is the run in the plain world, with the record beside
  it; the handler's own log agrees with the record the collaborators kept.
\<close>

lemma mirrors_import_file:
  "mirrors rs st \<Longrightarrow>
   mirrors (import_file (recording E) byHash path rs) (import_file E byHash path st)"
  by (cases "world rs")
     (auto simp: mirrors_def import_file_def recording_def Let_def
       split: prod.splits sum.splits option.splits)

lemma mirrors_fold:
  "mirrors rs st \<Longrightarrow>
   mirrors (fold (import_file (recording E) byHash) pdfs rs)
           (fold (import_file E byHash) pdfs st)"
  by (induction pdfs arbitrary: rs st) (simp_all add: mirrors_import_file)

lemma mirrors_import_loop:
  "mirrors (import_loop (recording E) byHash pdfs (w, [])) (import_loop E byHash pdfs w)"
  unfolding import_loop_def by (rule mirrors_fold) (simp add: mirrors_def)

lemma record_of_import_loop:
  "calls (import_loop E byHash pdfs w) =
     Call_WalkDir ''.'' # snd (world (import_loop (recording E) byHash pdfs (w, [])))"
  using mirrors_import_loop [of E byHash pdfs w] unfolding mirrors_def by metis



lemma import_file_unmatched:
  assumes "Open E path (world st) = (Inr doc, wa)" and "HashDoc E doc wa = (h, wb)"
    and "byHash h = None"
  shows "summary (import_file E byHash path st) = summary st"
    and "world (import_file E byHash path st) = Close E doc wb"
  using assms by (simp_all add: import_file_def)

lemma import_file_matched:
  assumes "Open E path (world st) = (Inr doc, wa)" and "HashDoc E doc wa = (h, wb)"
    and "byHash h = Some am" and "Import E doc am wb = ((n, err), wc)"
    and "Save E doc wc = ((saved, serr), wd)"
  shows "summary (import_file E byHash path st) =
           (case err of
              Some msg \<Rightarrow>
                \<lparr>Files = append_slice (Files (summary st))
                           \<lparr>File = path, Imported = n, Saved = False, Error = msg\<rparr>,
                 TotalImported = TotalImported (summary st)\<rparr>
            | None \<Rightarrow>
                \<lparr>Files = append_slice (Files (summary st))
                           \<lparr>File = path, Imported = n,
                            Saved = (if 0 <s n then saved else False),
                            Error = (if 0 <s n
                                     then (case serr of None \<Rightarrow> [] | Some msg \<Rightarrow> msg)
                                     else [])\<rparr>,
                 TotalImported = TotalImported (summary st) + n\<rparr>)"
    and "world (import_file E byHash path st) =
           Close E doc (if 0 <s n \<and> err = None then wd else wc)"
    and "calls (import_file E byHash path st) =
           calls st @
           [Call_Open path (Inr (Handle doc)), Call_HashDoc (Handle doc) h,
            Call_Import (Handle doc) am n err] @
           (if 0 <s n \<and> err = None then [Call_Save (Handle doc) saved serr] else []) @
           [Call_Close (Handle doc)]"
  using assms
  by (auto simp: import_file_def Let_def split: option.splits)








lemma handles_closed_import_file:
  "handles_closed None (calls st) \<Longrightarrow>
   handles_closed None (calls (import_file E byHash path st))"
  by (auto simp: import_file_def Let_def handles_closed_append
      split: prod.splits sum.splits option.splits)

lemma handles_closed_fold:
  "handles_closed None (calls st) \<Longrightarrow>
   handles_closed None (calls (fold (import_file E byHash) pdfs st))"
  by (induction pdfs arbitrary: st) (simp_all add: handles_closed_import_file)

lemma handles_closed_import_loop:
  "handles_closed None (calls (import_loop E byHash pdfs w))"
  unfolding import_loop_def by (rule handles_closed_fold) simp

text \<open>
  Claim C6: every document that opens is closed exactly once before the loop moves to
  the next file, on every path through the loop body. In the record the collaborators
  keep of an import, \<^verbatim>\<open>Open\<close> is called only while no document is open, every successful
  \<^verbatim>\<open>Open\<close> is followed by one \<^verbatim>\<open>Close\<close> of that document before the next \<^verbatim>\<open>Open\<close>, and no
  document is open at the end; the recording run leaves the plain world the plain run
  leaves. In one iteration on a document that opens, the world the iteration leaves is
  that of \<^verbatim>\<open>Close\<close>, applied to the world of the last call before it: that of \<^verbatim>\<open>HashDoc\<close>
  without a match, that of \<^verbatim>\<open>Import\<close> on a merge error or a count that is not positive,
  that of \<^verbatim>\<open>Save\<close> otherwise, whatever \<^verbatim>\<open>Save\<close> returned.
\<close>

theorem import_closes_every_document:
  "handles_closed None (snd (world (import_loop (recording E) byHash pdfs (w, [])))) \<and>
   fst (world (import_loop (recording E) byHash pdfs (w, []))) =
     world (import_loop E byHash pdfs w) \<and>
   (Open E path (world st) = (Inr doc, wa) \<longrightarrow> HashDoc E doc wa = (h, wb) \<longrightarrow>
      (byHash h = None \<longrightarrow> world (import_file E byHash path st) = Close E doc wb) \<and>
      (byHash h = Some am \<longrightarrow> Import E doc am wb = ((n, err), wc) \<longrightarrow>
       Save E doc wc = ((saved, serr), wd) \<longrightarrow>
         world (import_file E byHash path st) =
           Close E doc (if 0 <s n \<and> err = None then wd else wc)))"
proof -
  have "handles_closed None
      (Call_WalkDir ''.'' # snd (world (import_loop (recording E) byHash pdfs (w, []))))"
    using handles_closed_import_loop [of E byHash pdfs w]
    by (simp only: record_of_import_loop)
  then have closed:
    "handles_closed None (snd (world (import_loop (recording E) byHash pdfs (w, []))))"
    by simp
  have same: "fst (world (import_loop (recording E) byHash pdfs (w, []))) =
      world (import_loop E byHash pdfs w)"
    using mirrors_import_loop [of E byHash pdfs w] by (simp add: mirrors_def)
  have unmatched: "world (import_file E byHash path st) = Close E doc wb"
    if "Open E path (world st) = (Inr doc, wa)" "HashDoc E doc wa = (h, wb)" "byHash h = None"
    using import_file_unmatched(2) [where byHash = byHash, OF that] .
  have matched: "world (import_file E byHash path st) =
      Close E doc (if 0 <s n \<and> err = None then wd else wc)"
    if "Open E path (world st) = (Inr doc, wa)" "HashDoc E doc wa = (h, wb)"
      "byHash h = Some am" "Import E doc am wb = ((n, err), wc)"
      "Save E doc wc = ((saved, serr), wd)"
    using import_file_matched(2) [where byHash = byHash, OF that] .
  show ?thesis
    using closed same unmatched matched by blast
qed

theorem import_closes_every_document_witness:
  "snd (world (import_loop
      (recording (example_env None (3, None) (False, Some ''disk full'') []))
      example_byHash [''/bad.pdf'', ''/other.pdf'', ''/broken.pdf'', ''/a.pdf''] ((), []))) =
     [Call_Open ''/bad.pdf'' (Inl ''open failed''),
      Call_Open ''/other.pdf'' (Inr ''/other.pdf''), Call_HashDoc ''/other.pdf'' ''xyz'',
      Call_Close ''/other.pdf'',
      Call_Open ''/broken.pdf'' (Inr ''/broken.pdf''), Call_HashDoc ''/broken.pdf'' ''abc'',
      Call_Import ''/broken.pdf'' [(1, [''h1''])] 1 (Some ''merge failed''),
      Call_Close ''/broken.pdf'',
      Call_Open ''/a.pdf'' (Inr ''/a.pdf''), Call_HashDoc ''/a.pdf'' ''abc'',
      Call_Import ''/a.pdf'' [(1, [''h1''])] 3 None,
      Call_Save ''/a.pdf'' False (Some ''disk full''), Call_Close ''/a.pdf''] \<and>
   handles_closed None (snd (world (import_loop
      (recording (example_env None (3, None) (False, Some ''disk full'') []))
      example_byHash [''/bad.pdf'', ''/other.pdf'', ''/broken.pdf'', ''/a.pdf''] ((), [])))) \<and>
   world (import_file (recording (example_env None (3, None) (False, Some ''disk full'') []))
      example_byHash ''/other.pdf'' rstart) =
     ((), [Call_Open ''/other.pdf'' (Inr ''/other.pdf''), Call_HashDoc ''/other.pdf'' ''xyz'',
           Call_Close ''/other.pdf'']) \<and>
   world (import_file (recording (example_env None (3, None) (False, Some ''disk full'') []))
      example_byHash ''/a.pdf'' rstart) =
     ((), [Call_Open ''/a.pdf'' (Inr ''/a.pdf''), Call_HashDoc ''/a.pdf'' ''abc'',
           Call_Import ''/a.pdf'' [(1, [''h1''])] 3 None,
           Call_Save ''/a.pdf'' False (Some ''disk full''), Call_Close ''/a.pdf''])"
proof -
  let ?E = "recording (example_env None (3, None) (False, Some ''disk full'') [])"
  let ?other = "\<lparr>AnnotsBuffer = None, HashBuffer = [], Handle = ''/other.pdf''\<rparr>"
  let ?doc = "\<lparr>AnnotsBuffer = None, HashBuffer = [], Handle = ''/a.pdf''\<rparr>"
  let ?o1 = "[Call_Open ''/other.pdf'' (Inr ''/other.pdf'')]"
  let ?h1 = "?o1 @ [Call_HashDoc ''/other.pdf'' ''xyz'']"
  let ?o2 = "[Call_Open ''/a.pdf'' (Inr ''/a.pdf'')]"
  let ?h2 = "?o2 @ [Call_HashDoc ''/a.pdf'' ''abc'']"
  let ?i2 = "?h2 @ [Call_Import ''/a.pdf'' [(1, [''h1''])] 3 None]"
  let ?s2 = "?i2 @ [Call_Save ''/a.pdf'' False (Some ''disk full'')]"
  have run: "snd (world (import_loop ?E example_byHash
      [''/bad.pdf'', ''/other.pdf'', ''/broken.pdf'', ''/a.pdf''] ((), []))) =
     [Call_Open ''/bad.pdf'' (Inl ''open failed''),
      Call_Open ''/other.pdf'' (Inr ''/other.pdf''), Call_HashDoc ''/other.pdf'' ''xyz'',
      Call_Close ''/other.pdf'',
      Call_Open ''/broken.pdf'' (Inr ''/broken.pdf''), Call_HashDoc ''/broken.pdf'' ''abc'',
      Call_Import ''/broken.pdf'' [(1, [''h1''])] 1 (Some ''merge failed''),
      Call_Close ''/broken.pdf'',
      Call_Open ''/a.pdf'' (Inr ''/a.pdf''), Call_HashDoc ''/a.pdf'' ''abc'',
      Call_Import ''/a.pdf'' [(1, [''h1''])] 3 None,
      Call_Save ''/a.pdf'' False (Some ''disk full''), Call_Close ''/a.pdf'']"
    by (simp add: run_defs)
  have closed: "handles_closed None (snd (world (import_loop ?E example_byHash
      [''/bad.pdf'', ''/other.pdf'', ''/broken.pdf'', ''/a.pdf''] ((), []))))"
    using import_closes_every_document
      [where E = "example_env None (3, None) (False, Some ''disk full'') []"
         and byHash = example_byHash
         and pdfs = "[''/bad.pdf'', ''/other.pdf'', ''/broken.pdf'', ''/a.pdf'']"
         and w = "()", THEN conjunct1] .
  have o1: "Open ?E ''/other.pdf'' (world rstart) = (Inr ?other, ((), ?o1))"
    and h1: "HashDoc ?E ?other ((), ?o1) = (''xyz'', ((), ?h1))"
    and c1: "Close ?E ?other ((), ?h1) = ((), ?h1 @ [Call_Close ''/other.pdf''])"
    and o2: "Open ?E ''/a.pdf'' (world rstart) = (Inr ?doc, ((), ?o2))"
    and h2: "HashDoc ?E ?doc ((), ?o2) = (''abc'', ((), ?h2))"
    and i2: "Import ?E ?doc [(1, [''h1''])] ((), ?h2) = ((3, None), ((), ?i2))"
    and s2: "Save ?E ?doc ((), ?i2) = ((False, Some ''disk full''), ((), ?s2))"
    and c2: "Close ?E ?doc ((), ?s2) = ((), ?s2 @ [Call_Close ''/a.pdf''])"
    by (simp_all add: run_defs)
  have b1: "example_byHash ''xyz'' = None" and b2: "example_byHash ''abc'' = Some [(1, [''h1''])]"
    by (simp_all add: run_defs)
  have p: "(0 :: go_int) <s 3"
    by (simp add: word_sless_alt)
  have other: "world (import_file ?E example_byHash ''/other.pdf'' rstart) =
      ((), ?h1 @ [Call_Close ''/other.pdf''])"
    using import_closes_every_document
      [where E = ?E and byHash = example_byHash and path = "''/other.pdf''" and st = rstart
         and doc = ?other and wa = "((), ?o1)" and h = "''xyz''" and wb = "((), ?h1)"
         and am = "[]" and n = 0 and err = None and wc = "((), [])" and saved = False
         and serr = None and wd = "((), [])",
       THEN conjunct2, THEN conjunct2] o1 h1 b1 c1
    by simp
  have a: "world (import_file ?E example_byHash ''/a.pdf'' rstart) =
      ((), ?s2 @ [Call_Close ''/a.pdf''])"
    using import_closes_every_document
      [where E = ?E and byHash = example_byHash and path = "''/a.pdf''" and st = rstart
         and doc = ?doc and wa = "((), ?o2)" and h = "''abc''" and wb = "((), ?h2)"
         and am = "[(1, [''h1''])]" and n = 3 and err = None and wc = "((), ?i2)"
         and saved = False and serr = "Some ''disk full''" and wd = "((), ?s2)",
       THEN conjunct2, THEN conjunct2] o2 h2 b2 i2 s2 c2 p
    by simp
  from run closed other a show ?thesis
    by simp
qed

text \<open>
  Claim C7: for a document that opened and matched, \<^verbatim>\<open>Save\<close> is applied, once, to the
  world \<^verbatim>\<open>Import\<close> left, exactly when \<^verbatim>\<open>Import\<close> returned a positive count and no error: the
  iteration leaves the world of \<^verbatim>\<open>Close\<close> on what \<^verbatim>\<open>Save\<close> left in that case, and on what
  \<^verbatim>\<open>Import\<close> left otherwise, and its calls are \<^verbatim>\<open>Open\<close>, \<^verbatim>\<open>HashDoc\<close>, \<^verbatim>\<open>Import\<close>, then \<^verbatim>\<open>Save\<close>
  in that case only, then \<^verbatim>\<open>Close\<close>. The outcome carries the count \<^verbatim>\<open>Import\<close> returned; when
  \<^verbatim>\<open>Save\<close> is applied its \<^verbatim>\<open>saved\<close> field is the flag \<^verbatim>\<open>Save\<close> returned and its \<^verbatim>\<open>error\<close>
  field is the error of \<^verbatim>\<open>Save\<close>, if any; otherwise \<^verbatim>\<open>saved\<close> is false and the error is
  that of \<^verbatim>\<open>Import\<close>, if any.
\<close>

theorem save_iff_imported:
  assumes "Open E path (world st) = (Inr doc, wa)" and "HashDoc E doc wa = (h, wb)"
    and "byHash h = Some am" and "Import E doc am wb = ((n, err), wc)"
    and "Save E doc wc = ((saved, serr), wd)"
  shows "world (import_file E byHash path st) =
           Close E doc (if 0 <s n \<and> err = None then wd else wc) \<and>
         calls (import_file E byHash path st) =
           calls st @
           [Call_Open path (Inr (Handle doc)), Call_HashDoc (Handle doc) h,
            Call_Import (Handle doc) am n err] @
           (if 0 <s n \<and> err = None then [Call_Save (Handle doc) saved serr] else []) @
           [Call_Close (Handle doc)] \<and>
         elems (Files (summary (import_file E byHash path st))) =
           elems (Files (summary st)) @
           [\<lparr>File = path, Imported = n,
             Saved = (if 0 <s n \<and> err = None then saved else False),
             Error = (if 0 <s n \<and> err = None
                      then (case serr of None \<Rightarrow> [] | Some msg \<Rightarrow> msg)
                      else (case err of None \<Rightarrow> [] | Some msg \<Rightarrow> msg))\<rparr>]"
proof -
  have "elems (Files (summary (import_file E byHash path st))) =
      elems (Files (summary st)) @
      [\<lparr>File = path, Imported = n,
        Saved = (if 0 <s n \<and> err = None then saved else False),
        Error = (if 0 <s n \<and> err = None
                 then (case serr of None \<Rightarrow> [] | Some msg \<Rightarrow> msg)
                 else (case err of None \<Rightarrow> [] | Some msg \<Rightarrow> msg))\<rparr>]"
    by (cases err)
       (simp_all add: import_file_matched(1) [where byHash = byHash, OF assms]
          elems_append_slice)
  then show ?thesis
    using import_file_matched(2,3) [where byHash = byHash, OF assms] by simp
qed

theorem save_iff_imported_witness:
  "world (import_file (recording (example_env None (3, None) (False, Some ''disk full'') []))
      example_byHash ''/a.pdf'' rstart) =
     ((), [Call_Open ''/a.pdf'' (Inr ''/a.pdf''), Call_HashDoc ''/a.pdf'' ''abc'',
           Call_Import ''/a.pdf'' [(1, [''h1''])] 3 None,
           Call_Save ''/a.pdf'' False (Some ''disk full''), Call_Close ''/a.pdf'']) \<and>
   elems (Files (summary (import_file
      (recording (example_env None (3, None) (False, Some ''disk full'') []))
      example_byHash ''/a.pdf'' rstart))) =
     [\<lparr>File = ''/a.pdf'', Imported = 3, Saved = False, Error = ''disk full''\<rparr>] \<and>
   world (import_file (recording (example_env None (3, None) (False, Some ''disk full'') []))
      example_byHash ''/broken.pdf'' rstart) =
     ((), [Call_Open ''/broken.pdf'' (Inr ''/broken.pdf''), Call_HashDoc ''/broken.pdf'' ''abc'',
           Call_Import ''/broken.pdf'' [(1, [''h1''])] 1 (Some ''merge failed''),
           Call_Close ''/broken.pdf'']) \<and>
   elems (Files (summary (import_file
      (recording (example_env None (3, None) (False, Some ''disk full'') []))
      example_byHash ''/broken.pdf'' rstart))) =
     [\<lparr>File = ''/broken.pdf'', Imported = 1, Saved = False, Error = ''merge failed''\<rparr>] \<and>
   world (import_file (recording (example_env None (0, None) (True, None) []))
      example_byHash ''/a.pdf'' rstart) =
     ((), [Call_Open ''/a.pdf'' (Inr ''/a.pdf''), Call_HashDoc ''/a.pdf'' ''abc'',
           Call_Import ''/a.pdf'' [(1, [''h1''])] 0 None, Call_Close ''/a.pdf'']) \<and>
   elems (Files (summary (import_file
      (recording (example_env None (0, None) (True, None) []))
      example_byHash ''/a.pdf'' rstart))) =
     [\<lparr>File = ''/a.pdf'', Imported = 0, Saved = False, Error = []\<rparr>]"
proof -
  let ?Z = "recording (example_env None (0, None) (True, None) [])"
  let ?zi = "[Call_Open ''/a.pdf'' (Inr ''/a.pdf''), Call_HashDoc ''/a.pdf'' ''abc'',
              Call_Import ''/a.pdf'' [(1, [''h1''])] 0 None]"
  let ?E = "recording (example_env None (3, None) (False, Some ''disk full'') [])"
  let ?doc = "\<lparr>AnnotsBuffer = None, HashBuffer = [], Handle = ''/a.pdf''\<rparr>"
  let ?o = "[Call_Open ''/a.pdf'' (Inr ''/a.pdf'')]"
  let ?h = "?o @ [Call_HashDoc ''/a.pdf'' ''abc'']"
  let ?i = "?h @ [Call_Import ''/a.pdf'' [(1, [''h1''])] 3 None]"
  let ?s = "?i @ [Call_Save ''/a.pdf'' False (Some ''disk full'')]"
  let ?broken = "\<lparr>AnnotsBuffer = None, HashBuffer = [], Handle = ''/broken.pdf''\<rparr>"
  let ?bo = "[Call_Open ''/broken.pdf'' (Inr ''/broken.pdf'')]"
  let ?bh = "?bo @ [Call_HashDoc ''/broken.pdf'' ''abc'']"
  let ?bi = "?bh @ [Call_Import ''/broken.pdf'' [(1, [''h1''])] 1 (Some ''merge failed'')]"
  let ?bs = "?bi @ [Call_Save ''/broken.pdf'' False (Some ''disk full'')]"
  have o: "Open ?E ''/a.pdf'' (world rstart) = (Inr ?doc, ((), ?o))"
    and h: "HashDoc ?E ?doc ((), ?o) = (''abc'', ((), ?h))"
    and i: "Import ?E ?doc [(1, [''h1''])] ((), ?h) = ((3, None), ((), ?i))"
    and s: "Save ?E ?doc ((), ?i) = ((False, Some ''disk full''), ((), ?s))"
    and c: "Close ?E ?doc ((), ?s) = ((), ?s @ [Call_Close ''/a.pdf''])"
    and bo: "Open ?E ''/broken.pdf'' (world rstart) = (Inr ?broken, ((), ?bo))"
    and bh: "HashDoc ?E ?broken ((), ?bo) = (''abc'', ((), ?bh))"
    and bi: "Import ?E ?broken [(1, [''h1''])] ((), ?bh) = ((1, Some ''merge failed''), ((), ?bi))"
    and bs: "Save ?E ?broken ((), ?bi) = ((False, Some ''disk full''), ((), ?bs))"
    and bc: "Close ?E ?broken ((), ?bi) = ((), ?bi @ [Call_Close ''/broken.pdf''])"
    by (simp_all add: run_defs)
  have zo: "Open ?Z ''/a.pdf'' (world rstart) = (Inr ?doc, ((), ?o))"
    and zh: "HashDoc ?Z ?doc ((), ?o) = (''abc'', ((), ?h))"
    and zi: "Import ?Z ?doc [(1, [''h1''])] ((), ?h) = ((0, None), ((), ?zi))"
    and zs: "Save ?Z ?doc ((), ?zi) = ((True, None), ((), ?zi @ [Call_Save ''/a.pdf'' True None]))"
    and zc: "Close ?Z ?doc ((), ?zi) = ((), ?zi @ [Call_Close ''/a.pdf''])"
    by (simp_all add: run_defs)
  have b: "example_byHash ''abc'' = Some [(1, [''h1''])]"
    by (simp add: run_defs)
  have z: "elems (Files (summary rstart)) = []"
    by (simp add: rstart_def)
  have p: "(0 :: go_int) <s 3"
    by (simp add: word_sless_alt)
  show ?thesis
    using save_iff_imported [where byHash = example_byHash and path = "''/a.pdf''", OF o h b i s]
      save_iff_imported
        [where byHash = example_byHash and path = "''/broken.pdf''", OF bo bh b bi bs]
      save_iff_imported [where byHash = example_byHash and path = "''/a.pdf''", OF zo zh b zi zs]
      c bc zc z p
    by simp
qed

section \<open>The export handler\<close>

lemma walk_no_match:
  "\<forall>v \<in> set vs. v_err v = None \<and> (v_isDir v \<or> Ext (v_name v) \<noteq> ''.pdf'') \<Longrightarrow>
   walk E w pdfs vs = Inr pdfs"
  by (induction vs arbitrary: pdfs) (auto simp: walkFn_def)

text \<open>
  Claim C8, as the specification words it, fails: \<^verbatim>\<open>exportedDocs\<close> is declared without
  a value (line 74), no document is appended, and the encoder writes the nil slice as
  \<^verbatim>\<open>null\<close>, not as the empty array.
\<close>

theorem export_empty_tree_counterexample:
  "Response (serveExportHandler (example_env None (0, None) (False, None) [dir_visit ''.''])
      (post []) ()) = \<lparr>Status = 200, Body = Export_json Enc_null\<rparr> \<and>
   Body (Response (serveExportHandler (example_env None (0, None) (False, None) [dir_visit ''.''])
      (post []) ())) \<noteq> Export_json (Enc_array [])"
  by (simp add: run_defs)

text \<open>
  Claim C8, amended: an export request over a tree the walk reads without error and that
  holds no file with the extension \<^verbatim>\<open>.pdf\<close> is answered with status 200 and the JSON value
  \<^verbatim>\<open>null\<close> as body; the world is left as it was and no document is opened.
\<close>

theorem export_empty_tree_null:
  assumes "Method r = ''POST''"
    and "\<forall>v \<in> set (WalkDir E ''.'' w).
           v_err v = None \<and> (v_isDir v \<or> Ext (v_name v) \<noteq> ''.pdf'')"
  shows "Response (serveExportHandler E r w) = \<lparr>Status = 200, Body = Export_json Enc_null\<rparr> \<and>
         World (serveExportHandler E r w) = w \<and>
         Calls (serveExportHandler E r w) = [Call_WalkDir ''.'']"
  using assms
  by (simp add: serveExportHandler_def scanPDFs_def walk_no_match export_loop_def)

theorem export_empty_tree_null_witness:
  "Response (serveExportHandler
      (example_env None (0, None) (False, None)
         [dir_visit ''.'', file_visit ''notes.txt'', file_visit ''a.PDF'', file_visit ''pdf''])
      (post []) ()) = \<lparr>Status = 200, Body = Export_json Enc_null\<rparr>"
proof -
  let ?E = "example_env None (0, None) (False, None)
      [dir_visit ''.'', file_visit ''notes.txt'', file_visit ''a.PDF'', file_visit ''pdf'']"
  have m: "Method (post []) = ''POST''"
    by (simp add: post_def)
  have v: "\<forall>v \<in> set (WalkDir ?E ''.'' ()).
      v_err v = None \<and> (v_isDir v \<or> Ext (v_name v) \<noteq> ''.pdf'')"
    by (simp add: example_env_def dir_visit_def file_visit_def Ext_def)
  show ?thesis
    using export_empty_tree_null [OF m v] by simp
qed

section \<open>Malformed import requests\<close>

text \<open>
  Claim C9: an import request (method POST) whose body was read but is not valid JSON
  is answered with status 400 and the text \<^verbatim>\<open>invalid json: \<close> followed by the decoder's
  error, so the body contains \<^verbatim>\<open>invalid json\<close>; the handler returns before the scan, makes
  no call to a collaborator and leaves the world as it was.
\<close>

theorem invalid_json_rejected:
  assumes "Method r = ''POST''" and "ReadAll r = Inr body" and "Unmarshal E body = Inl err"
  shows "Status (Response (serveImportHandler E r w)) = 400 \<and>
         body_text (Body (Response (serveImportHandler E r w))) =
           ''invalid json: '' @ err @ [CHR 0x0A] \<and>
         sublist ''invalid json'' (body_text (Body (Response (serveImportHandler E r w)))) \<and>
         Calls (serveImportHandler E r w) = [] \<and>
         World (serveImportHandler E r w) = w"
proof -
  have "sublist ''invalid json'' (''invalid json: '' @ err @ [CHR 0x0A])"
    by (rule prefix_imp_sublist) (simp add: prefix_def)
  then show ?thesis
    using assms by (simp add: serveImportHandler_def http_Error_def)
qed

theorem invalid_json_rejected_witness:
  "Status (Response (serveImportHandler
      (example_env None (0, None) (False, None) [dir_visit ''.'', file_visit ''a.pdf''])
      (post ''not json'') ())) = 400 \<and>
   body_text (Body (Response (serveImportHandler
      (example_env None (0, None) (False, None) [dir_visit ''.'', file_visit ''a.pdf''])
      (post ''not json'') ()))) = ''invalid json: invalid character'' @ [CHR 0x0A] \<and>
   Calls (serveImportHandler
      (example_env None (0, None) (False, None) [dir_visit ''.'', file_visit ''a.pdf''])
      (post ''not json'') ()) = []"
proof -
  let ?E = "example_env None (0, None) (False, None) [dir_visit ''.'', file_visit ''a.pdf'']"
  have m: "Method (post ''not json'') = ''POST''"
    and r: "ReadAll (post ''not json'') = Inr ''not json''"
    and u: "Unmarshal ?E ''not json'' = Inl ''invalid character''"
    by (simp_all add: post_def example_env_def)
  show ?thesis
    using invalid_json_rejected [OF m r u, of "()"] by simp
qed

section \<open>Export does not filter\<close>











end
